theory Spec2Isabelle
  imports Complex_Main "HOL-Library.AList" "HOL-Library.List_Lexorder" "HOL-Library.Char_ord"
begin

section \<open>The relay hub\<close>

text \<open>
  The hub exists three times in the repository with the same shape: the standalone
  WebSocket server, the Next.js API route and the legacy \<^verbatim>\<open>server.js\<close>. The standalone
  server and the API route run the same statements (the route stores the socket itself
  in the registry instead of an object holding it); they are modelled once. The legacy
  message handler differs and is modelled beside them.
\<close>

subsection \<open>JavaScript values\<close>

text \<open>
  A frame is handled through \<^verbatim>\<open>JSON.parse(data.toString())\<close>. The parsed value is a JSON
  value; \<^verbatim>\<open>undefined\<close> (a property that is absent) is \<open>None\<close>. Numbers are
  kept as integers: the handlers only test them for truthiness. An object holds its own
  properties in order, each key once, as \<^verbatim>\<open>JSON.parse\<close> leaves them.
\<close>

datatype json =
    JNull
  | JBool bool
  | JNum int
  | JStr string
  | JArr "json list"
  | JObj "(string \<times> json) list"

type_synonym jsval = "json option"

datatype js_error = SyntaxError | TypeError | SendError

datatype frame = Unparsable | Parsed json

fun truthy :: "jsval \<Rightarrow> bool" where
  "truthy None = False"
| "truthy (Some JNull) = False"
| "truthy (Some (JBool b)) = b"
| "truthy (Some (JNum n)) = (n \<noteq> 0)"
| "truthy (Some (JStr s)) = (s \<noteq> [])"
| "truthy (Some (JArr xs)) = True"
| "truthy (Some (JObj kvs)) = True"

text \<open>
  Reading one of the properties \<^verbatim>\<open>type\<close>, \<^verbatim>\<open>content\<close>, \<^verbatim>\<open>clientId\<close> or \<^verbatim>\<open>timestamp\<close>
  of a parsed value: only an object can own them; on \<^verbatim>\<open>null\<close> the read throws a
  TypeError; on a boolean, number, string or array it yields \<^verbatim>\<open>undefined\<close>.
\<close>

fun get_prop :: "json \<Rightarrow> string \<Rightarrow> js_error + jsval" where
  "get_prop JNull k = Inl TypeError"
| "get_prop (JObj kvs) k = Inr (map_of kvs k)"
| "get_prop v k = Inr None"

subsection \<open>Registry, history and the wire\<close>

type_synonym clientId = string

record websocket =
  readyState :: nat
  sendThrows :: bool

record connection =
  ws :: websocket
  connectedAt :: string
  userAgent :: jsval

record messageData =
  msg_type :: jsval
  content :: jsval
  clientId :: clientId
  timestamp :: string

text \<open>
  What the hub hands to \<^verbatim>\<open>JSON.stringify\<close>: the object literals it builds, and (in the
  legacy server) the parsed frame itself. Serialisation is not modelled; the envelope
  stands for its text.
\<close>

datatype envelope =
    Connected clientId nat "messageData list"
  | UserCount nat
  | Message messageData
  | Pong
  | Raw json

datatype send_result = Sent | Threw

text \<open>
  \<open>connections\<close> is the JavaScript \<^verbatim>\<open>Map\<close> in insertion order, \<open>messages\<close> the history
  array. \<open>wire\<close> records the calls of \<^verbatim>\<open>ws.send\<close>: the identity whose socket was
  used, the payload, and whether the call returned or threw (a throwing call is recorded
  where the hub catches it, in \<^verbatim>\<open>broadcast\<close>).
\<close>

record hub =
  connections :: "(clientId \<times> connection) list"
  messages :: "messageData list"
  wire :: "(clientId \<times> envelope \<times> send_result) list"

definition MAX_MESSAGES :: nat where
  "MAX_MESSAGES = 100"

definition hub0 :: hub where
  "hub0 = \<lparr>connections = [], messages = [], wire = []\<rparr>"

text \<open>\<^verbatim>\<open>connections.size\<close>: the number of keys.\<close>

definition Map_size :: "(clientId \<times> connection) list \<Rightarrow> nat" where
  "Map_size m = length (remdups (map fst m))"

definition slice_last :: "nat \<Rightarrow> 'a list \<Rightarrow> 'a list" where
  "slice_last k xs = drop (length xs - k) xs"

text \<open>\<^verbatim>\<open>ws.send(message)\<close> on the socket registered for \<open>cid\<close>.\<close>

definition ws_send :: "clientId \<Rightarrow> websocket \<Rightarrow> envelope \<Rightarrow> hub \<Rightarrow> js_error + hub" where
  "ws_send cid sock data s =
     (if sendThrows sock then Inl SendError
      else Inr (s\<lparr>wire := wire s @ [(cid, data, Sent)]\<rparr>))"

subsection \<open>broadcast\<close>

text \<open>
  \<^verbatim>\<open>for (const [clientId, connection] of connections)\<close> with a \<^verbatim>\<open>try\<close>/\<^verbatim>\<open>catch\<close> around
  the send. The loop deletes at most the entry it is visiting, so the iterator visits
  every entry that was in the map when the loop began: the recursion runs over that
  list, and the deletions go to the map of the state.
\<close>

fun broadcast_loop ::
  "envelope \<Rightarrow> clientId \<Rightarrow> (clientId \<times> connection) list \<Rightarrow> hub \<Rightarrow> hub" where
  "broadcast_loop data excludeClientId [] s = s"
| "broadcast_loop data excludeClientId ((cid, c) # rest) s =
     broadcast_loop data excludeClientId rest
       (if cid \<noteq> excludeClientId \<and> readyState (ws c) = 1 then
          (case ws_send cid (ws c) data s of
             Inr s' \<Rightarrow> s'
           | Inl err \<Rightarrow>
               s\<lparr>connections := AList.delete cid (connections s),
                 wire := wire s @ [(cid, data, Threw)]\<rparr>)
        else s)"

definition broadcast :: "envelope \<Rightarrow> clientId \<Rightarrow> hub \<Rightarrow> hub" where
  "broadcast data excludeClientId s =
     broadcast_loop data excludeClientId (connections s) s"

subsection \<open>The handlers of a connection\<close>

text \<open>
  A handler result \<open>Inl e\<close> is an exception that leaves the handler. \<open>clientId\<close> and
  \<open>sock\<close> are the variables the handlers close over; \<open>now\<close> is what
  \<^verbatim>\<open>new Date().toISOString()\<close> returns at that moment.
\<close>

definition push_message :: "messageData list \<Rightarrow> messageData \<Rightarrow> messageData list" where
  "push_message ms m =
     (let ms' = ms @ [m] in if length ms' > MAX_MESSAGES then tl ms' else ms')"

definition on_connection ::
  "clientId \<Rightarrow> websocket \<Rightarrow> string \<Rightarrow> jsval \<Rightarrow> hub \<Rightarrow> js_error + hub" where
  "on_connection cid sock now agent s =
     (let s1 = s\<lparr>connections :=
                 AList.update cid \<lparr>ws = sock, connectedAt = now, userAgent = agent\<rparr>
                   (connections s)\<rparr>;
          userCount = Map_size (connections s1);
          recentMessages = slice_last 10 (messages s1);
          data = Connected cid userCount recentMessages
      in case ws_send cid sock data s1 of
           Inl err \<Rightarrow> Inl err
         | Inr s2 \<Rightarrow> Inr (broadcast (UserCount userCount) cid s2))"

text \<open>The body of the \<^verbatim>\<open>try\<close> block of the message handler.\<close>

definition on_message_try ::
  "clientId \<Rightarrow> websocket \<Rightarrow> string \<Rightarrow> frame \<Rightarrow> hub \<Rightarrow> js_error + hub" where
  "on_message_try cid sock now data s =
     (case data of
        Unparsable \<Rightarrow> Inl SyntaxError
      | Parsed message \<Rightarrow>
          (case get_prop message ''type'' of
             Inl err \<Rightarrow> Inl err
           | Inr type \<Rightarrow>
               (case get_prop message ''content'' of
                  Inl err \<Rightarrow> Inl err
                | Inr cont \<Rightarrow>
                    if type = Some (JStr ''message'') \<and> truthy cont then
                      (let messageData =
                             \<lparr>msg_type = type, content = cont, clientId = cid,
                              timestamp = now\<rparr>
                       in Inr (broadcast (Message messageData) cid
                                (s\<lparr>messages := push_message (messages s) messageData\<rparr>)))
                    else if type = Some (JStr ''ping'') then ws_send cid sock Pong s
                    else Inr s)))"

text \<open>
  The handler: the \<^verbatim>\<open>catch\<close> logs the error and returns. Every throwing statement of
  the block comes before any change of the state, so the state is the one the handler
  began with.
\<close>

definition on_message ::
  "clientId \<Rightarrow> websocket \<Rightarrow> string \<Rightarrow> frame \<Rightarrow> hub \<Rightarrow> js_error + hub" where
  "on_message cid sock now data s =
     (case on_message_try cid sock now data s of
        Inl err \<Rightarrow> Inr s
      | Inr s' \<Rightarrow> Inr s')"

text \<open>The legacy handler has no \<^verbatim>\<open>try\<close>, tests only the tag, and rebroadcasts the frame.\<close>

definition on_message_legacy ::
  "clientId \<Rightarrow> websocket \<Rightarrow> string \<Rightarrow> frame \<Rightarrow> hub \<Rightarrow> js_error + hub" where
  "on_message_legacy cid sock now data s =
     (case data of
        Unparsable \<Rightarrow> Inl SyntaxError
      | Parsed message \<Rightarrow>
          (case get_prop message ''type'' of
             Inl err \<Rightarrow> Inl err
           | Inr type \<Rightarrow>
               (case get_prop message ''content'' of
                  Inl err \<Rightarrow> Inl err
                | Inr cont \<Rightarrow>
                    if type = Some (JStr ''message'') then
                      Inr (broadcast (Raw message) cid
                            (s\<lparr>messages := push_message (messages s)
                                 \<lparr>msg_type = type, content = cont, clientId = cid,
                                  timestamp = now\<rparr>\<rparr>))
                    else if type = Some (JStr ''ping'') then ws_send cid sock Pong s
                    else Inr s)))"

definition on_close :: "clientId \<Rightarrow> hub \<Rightarrow> js_error + hub" where
  "on_close cid s =
     (let s1 = s\<lparr>connections := AList.delete cid (connections s)\<rparr>;
          count = Map_size (connections s1)
      in Inr (broadcast (UserCount count) cid s1))"

definition on_error :: "clientId \<Rightarrow> hub \<Rightarrow> js_error + hub" where
  "on_error cid s =
     (let s1 = s\<lparr>connections := AList.delete cid (connections s)\<rparr>;
          count = Map_size (connections s1)
      in Inr (broadcast (UserCount count) cid s1))"

subsection \<open>Runs of the hub\<close>

text \<open>
  The events the standalone server (and the API route) reacts to. An exception that
  leaves a handler is not caught anywhere: the run ends with it.
\<close>

datatype event =
    Connection clientId websocket string jsval
  | Frame clientId websocket string frame
  | Close clientId
  | Error clientId

fun step :: "event \<Rightarrow> hub \<Rightarrow> js_error + hub" where
  "step (Connection cid sock now agent) s = on_connection cid sock now agent s"
| "step (Frame cid sock now data) s = on_message cid sock now data s"
| "step (Close cid) s = on_close cid s"
| "step (Error cid) s = on_error cid s"

fun run :: "event list \<Rightarrow> hub \<Rightarrow> js_error + hub" where
  "run [] s = Inr s"
| "run (ev # evs) s = (case step ev s of Inl err \<Rightarrow> Inl err | Inr s' \<Rightarrow> run evs s')"

text \<open>
  The records the message handler appends during a run, in order of receipt: one for
  each frame that parses to an object tagged \<^verbatim>\<open>message\<close> with truthy content.
\<close>

fun appended :: "event list \<Rightarrow> messageData list" where
  "appended [] = []"
| "appended (Frame cid sock now (Parsed (JObj kvs)) # evs) =
     (if map_of kvs ''type'' = Some (JStr ''message'') \<and> truthy (map_of kvs ''content'')
      then [\<lparr>msg_type = map_of kvs ''type'', content = map_of kvs ''content'',
             clientId = cid, timestamp = now\<rparr>]
      else []) @ appended evs"
| "appended (ev # evs) = appended evs"

text \<open>Predicates on registry entries, used to state what \<^verbatim>\<open>broadcast\<close> does.\<close>

definition eligible :: "clientId \<Rightarrow> clientId \<times> connection \<Rightarrow> bool" where
  "eligible excludeClientId p =
     (fst p \<noteq> excludeClientId \<and> readyState (ws (snd p)) = 1)"

definition outcome :: "connection \<Rightarrow> send_result" where
  "outcome c = (if sendThrows (ws c) then Threw else Sent)"

definition send_call :: "envelope \<Rightarrow> clientId \<times> connection \<Rightarrow> clientId \<times> envelope \<times> send_result" where
  "send_call data p = (fst p, data, outcome (snd p))"

text \<open>The calls of \<^verbatim>\<open>ws.send\<close> made between two states.\<close>

definition new_calls :: "hub \<Rightarrow> hub \<Rightarrow> (clientId \<times> envelope \<times> send_result) list" where
  "new_calls s s' = drop (length (wire s)) (wire s')"

section \<open>The clients\<close>

subsection \<open>The browser around a client\<close>

text \<open>
  A client creates \<^verbatim>\<open>WebSocket\<close> objects and timeouts. \<open>sockets\<close> holds the
  \<^verbatim>\<open>readyState\<close> of every socket created so far (0 CONNECTING, 1 OPEN, 2 CLOSING,
  3 CLOSED), a socket being named by its position; the handlers a client sets on a socket
  stay on it when the client drops its reference. \<open>timers\<close> holds the pending timeouts
  (identifier and delay in milliseconds), \<open>timeouts\<close> every delay handed to
  \<^verbatim>\<open>setTimeout\<close> so far, in order. \<open>url_ok\<close> tells whether \<^verbatim>\<open>new WebSocket(url)\<close>
  returns (it throws on a malformed url).
\<close>

record browser =
  sockets :: "nat list"
  timers :: "(nat \<times> rat) list"
  next_timer :: nat
  timeouts :: "rat list"
  url_ok :: bool

definition socket_open :: "nat list \<Rightarrow> nat option \<Rightarrow> bool" where
  "socket_open socks r =
     (case r of None \<Rightarrow> False | Some i \<Rightarrow> i < length socks \<and> socks ! i = 1)"

text \<open>\<^verbatim>\<open>socket.close()\<close>: a socket that is connecting or open starts closing.\<close>

definition socket_close :: "nat \<Rightarrow> nat list \<Rightarrow> nat list" where
  "socket_close i socks =
     (if i < length socks \<and> socks ! i < 2 then socks[i := 2] else socks)"

definition clearTimeout :: "nat \<Rightarrow> (nat \<times> rat) list \<Rightarrow> (nat \<times> rat) list" where
  "clearTimeout t ts = filter (\<lambda>p. fst p \<noteq> t) ts"

definition maxReconnectAttempts :: nat where
  "maxReconnectAttempts = 5"

definition reconnectInterval :: rat where
  "reconnectInterval = 3000"

subsection \<open>The class WebSocketClient\<close>

record WebSocketClient = browser +
  this_ws :: "nat option"
  reconnectTimer :: "nat option"
  reconnectAttempts :: nat

definition client0 :: WebSocketClient where
  "client0 = \<lparr>sockets = [], timers = [], next_timer = 1, timeouts = [], url_ok = True,
              this_ws = None, reconnectTimer = None, reconnectAttempts = 0\<rparr>"

definition scheduleReconnect :: "WebSocketClient \<Rightarrow> WebSocketClient" where
  "scheduleReconnect c =
     (if reconnectAttempts c \<ge> maxReconnectAttempts then c
      else
        (let c1 = (case reconnectTimer c of
                     None \<Rightarrow> c
                   | Some t \<Rightarrow> c\<lparr>timers := clearTimeout t (timers c)\<rparr>);
             delay = reconnectInterval * 2 ^ reconnectAttempts c1
         in c1\<lparr>timers := timers c1 @ [(next_timer c1, delay)],
               timeouts := timeouts c1 @ [delay],
               reconnectTimer := Some (next_timer c1),
               next_timer := Suc (next_timer c1)\<rparr>))"

definition connect :: "WebSocketClient \<Rightarrow> WebSocketClient" where
  "connect c =
     (if socket_open (sockets c) (this_ws c) then c
      else if url_ok c then
        c\<lparr>this_ws := Some (length (sockets c)), sockets := sockets c @ [0]\<rparr>
      else scheduleReconnect c)"

definition disconnect :: "WebSocketClient \<Rightarrow> WebSocketClient" where
  "disconnect c =
     (let c1 = (case reconnectTimer c of
                  None \<Rightarrow> c
                | Some t \<Rightarrow> c\<lparr>timers := clearTimeout t (timers c), reconnectTimer := None\<rparr>)
      in case this_ws c1 of
           None \<Rightarrow> c1
         | Some i \<Rightarrow> c1\<lparr>sockets := socket_close i (sockets c1), this_ws := None\<rparr>)"

text \<open>
  What the browser does to a client: a connecting socket opens, a socket closes, a
  socket reports an error, a pending timeout fires. An event that cannot happen in the
  state leaves it unchanged.
\<close>

datatype browser_event = Opens nat | Closes nat | Errors nat | Fires nat

fun client_event :: "browser_event \<Rightarrow> WebSocketClient \<Rightarrow> WebSocketClient" where
  "client_event (Opens i) c =
     (if i < length (sockets c) \<and> sockets c ! i = 0
      then c\<lparr>sockets := (sockets c)[i := 1], reconnectAttempts := 0\<rparr>
      else c)"
| "client_event (Closes i) c =
     (if i < length (sockets c) \<and> sockets c ! i \<noteq> 3
      then scheduleReconnect (c\<lparr>sockets := (sockets c)[i := 3]\<rparr>)
      else c)"
| "client_event (Errors i) c = c"
| "client_event (Fires t) c =
     (if t \<in> fst ` set (timers c)
      then connect (c\<lparr>timers := clearTimeout t (timers c),
                      reconnectAttempts := Suc (reconnectAttempts c)\<rparr>)
      else c)"

subsection \<open>The hook useWebSocket\<close>

text \<open>
  The hook keeps its sockets, timer and attempt counter in refs and \<^verbatim>\<open>connected\<close>,
  \<^verbatim>\<open>connecting\<close>, \<^verbatim>\<open>userCount\<close> and \<^verbatim>\<open>messages\<close> in React state. \<^verbatim>\<open>connect\<close> is a
  \<^verbatim>\<open>useCallback\<close> with dependencies \<^verbatim>\<open>[url, connecting]\<close> and the effect that calls it has
  dependencies \<^verbatim>\<open>[connect]\<close>: whenever a render sees another value of \<^verbatim>\<open>connecting\<close> than
  the render before it, \<^verbatim>\<open>connect\<close> is created anew, the cleanup of the effect runs and
  the effect calls the new \<^verbatim>\<open>connect\<close>. \<open>rendered_connecting\<close> is the value of
  \<^verbatim>\<open>connecting\<close> at the last render, which the current \<^verbatim>\<open>connect\<close> closes over. The
  state updates of one handler are applied together, before the next render. A frame is
  \<^verbatim>\<open>JSON.parse(event.data)\<close> at its declared type \<^verbatim>\<open>WebSocketMessage\<close>, or \<open>None\<close> when
  the parse throws.
\<close>

record MessageData =
  md_content :: string
  md_clientId :: string
  md_timestamp :: string

record WebSocketMessage =
  wm_type :: string
  wm_clientId :: "string option"
  wm_content :: "string option"
  wm_count :: "nat option"
  wm_userCount :: "nat option"
  wm_recentMessages :: "MessageData list option"
  wm_timestamp :: "string option"

record hook = browser +
  connected :: bool
  connecting :: bool
  userCount :: nat
  h_messages :: "MessageData list"
  wsRef :: "nat option"
  reconnectTimerRef :: "nat option"
  reconnectAttemptsRef :: nat
  rendered_connecting :: bool

definition hook0 :: hook where
  "hook0 = \<lparr>sockets = [], timers = [], next_timer = 1, timeouts = [], url_ok = True,
            connected = False, connecting = False, userCount = 0, h_messages = [],
            wsRef = None, reconnectTimerRef = None, reconnectAttemptsRef = 0,
            rendered_connecting = False\<rparr>"

definition h_scheduleReconnect :: "hook \<Rightarrow> hook" where
  "h_scheduleReconnect h =
     (if reconnectAttemptsRef h \<ge> maxReconnectAttempts then h
      else
        (let h1 = (case reconnectTimerRef h of
                     None \<Rightarrow> h
                   | Some t \<Rightarrow> h\<lparr>timers := clearTimeout t (timers h)\<rparr>);
             delay = reconnectInterval * 2 powi (int (reconnectAttemptsRef h1) - 1)
         in h1\<lparr>timers := timers h1 @ [(next_timer h1, delay)],
               timeouts := timeouts h1 @ [delay],
               reconnectTimerRef := Some (next_timer h1),
               next_timer := Suc (next_timer h1)\<rparr>))"

text \<open>
  \<^verbatim>\<open>connect\<close>, as created by a render at which \<^verbatim>\<open>connecting\<close> was \<open>captured\<close>: the test
  \<^verbatim>\<open>if (connecting) return\<close> reads that value, not the state. When the constructor throws,
  \<^verbatim>\<open>setConnecting(true)\<close> and \<^verbatim>\<open>setConnecting(false)\<close> fall into one handler and leave the
  state as it was.
\<close>

definition h_connect :: "bool \<Rightarrow> hook \<Rightarrow> hook" where
  "h_connect captured h =
     (if socket_open (sockets h) (wsRef h) then h
      else if captured then h
      else
        (let h1 = h\<lparr>connecting := True, reconnectAttemptsRef := Suc (reconnectAttemptsRef h)\<rparr>
         in if url_ok h1 then
              h1\<lparr>wsRef := Some (length (sockets h1)), sockets := sockets h1 @ [0]\<rparr>
            else h_scheduleReconnect (h1\<lparr>connecting := False\<rparr>)))"

text \<open>The cleanup of the effect.\<close>

definition h_cleanup :: "hook \<Rightarrow> hook" where
  "h_cleanup h =
     (let h1 = (case reconnectTimerRef h of
                  None \<Rightarrow> h
                | Some t \<Rightarrow> h\<lparr>timers := clearTimeout t (timers h)\<rparr>)
      in case wsRef h1 of
           None \<Rightarrow> h1
         | Some i \<Rightarrow> h1\<lparr>sockets := socket_close i (sockets h1)\<rparr>)"

text \<open>
  Rendering after a handler: when \<^verbatim>\<open>connecting\<close> is what it was at the last render,
  \<^verbatim>\<open>connect\<close> is the same function and the effect does not run. Otherwise the cleanup
  runs, then the effect calls the \<^verbatim>\<open>connect\<close> of this render, and what that call does to
  the state is rendered in turn.
\<close>

function render :: "hook \<Rightarrow> hook" where
  "render h =
     (if connecting h = rendered_connecting h then h
      else render (h_connect (connecting h)
                     ((h_cleanup h)\<lparr>rendered_connecting := connecting h\<rparr>)))"
  by pat_completeness auto
termination
  by (relation "measure (\<lambda>h. if connecting h = rendered_connecting h then 0
                              else if connecting h then 1 else 2)")
     (auto simp: h_connect_def h_cleanup_def h_scheduleReconnect_def Let_def
           split: option.splits)

text \<open>Mounting: the first render, whose effect calls \<^verbatim>\<open>connect\<close>, and the renders it causes.\<close>

definition mounted_hook :: hook where
  "mounted_hook = render (h_connect (connecting hook0) hook0)"

text \<open>
  The handlers the browser calls. A socket is only created by a \<^verbatim>\<open>connect\<close> that got past
  \<^verbatim>\<open>if (connecting) return\<close>, and the \<^verbatim>\<open>scheduleReconnect\<close> its \<^verbatim>\<open>onclose\<close> calls belongs to
  the same render: the \<^verbatim>\<open>connect\<close> a timeout calls has captured \<open>False\<close>.
\<close>

fun hook_handler :: "browser_event \<Rightarrow> hook \<Rightarrow> hook" where
  "hook_handler (Opens i) h =
     (if i < length (sockets h) \<and> sockets h ! i = 0
      then h\<lparr>sockets := (sockets h)[i := 1], connected := True, connecting := False,
             reconnectAttemptsRef := 0\<rparr>
      else h)"
| "hook_handler (Closes i) h =
     (if i < length (sockets h) \<and> sockets h ! i \<noteq> 3
      then h_scheduleReconnect
             (h\<lparr>sockets := (sockets h)[i := 3], connected := False, connecting := False\<rparr>)
      else h)"
| "hook_handler (Errors i) h =
     (if i < length (sockets h) then h\<lparr>connected := False, connecting := False\<rparr> else h)"
| "hook_handler (Fires t) h =
     (if t \<in> fst ` set (timers h)
      then h_connect False (h\<lparr>timers := clearTimeout t (timers h)\<rparr>)
      else h)"

definition hook_event :: "browser_event \<Rightarrow> hook \<Rightarrow> hook" where
  "hook_event ev h = render (hook_handler ev h)"

definition onmessage :: "WebSocketMessage option \<Rightarrow> hook \<Rightarrow> hook" where
  "onmessage data h =
     (case data of
        None \<Rightarrow> h
      | Some message \<Rightarrow>
          if wm_type message = ''connected'' then
            (let h1 = (case wm_userCount message of
                         None \<Rightarrow> h
                       | Some n \<Rightarrow> h\<lparr>userCount := n\<rparr>)
             in case wm_recentMessages message of
                  None \<Rightarrow> h1
                | Some ms \<Rightarrow> h1\<lparr>h_messages := ms\<rparr>)
          else if wm_type message = ''userCount'' then
            (case wm_count message of
               None \<Rightarrow> h
             | Some n \<Rightarrow> h\<lparr>userCount := n\<rparr>)
          else if wm_type message = ''message'' then
            (case (wm_content message, wm_clientId message, wm_timestamp message) of
               (Some c, Some i, Some t) \<Rightarrow>
                 if c \<noteq> [] \<and> i \<noteq> [] \<and> t \<noteq> [] then
                   (let newMessage = \<lparr>md_content = c, md_clientId = i, md_timestamp = t\<rparr>
                    in h\<lparr>h_messages := take 100 (newMessage # h_messages h)\<rparr>)
                 else h
             | _ \<Rightarrow> h)
          else h)"

text \<open>
  The message envelopes the handler accepts, in order of arrival: those whose content,
  clientId and timestamp are all present and non-empty.
\<close>

fun accepted :: "WebSocketMessage option list \<Rightarrow> MessageData list" where
  "accepted [] = []"
| "accepted (None # fs) = accepted fs"
| "accepted (Some m # fs) =
     (case (wm_content m, wm_clientId m, wm_timestamp m) of
        (Some c, Some i, Some t) \<Rightarrow>
          if wm_type m = ''message'' \<and> c \<noteq> [] \<and> i \<noteq> [] \<and> t \<noteq> []
          then [\<lparr>md_content = c, md_clientId = i, md_timestamp = t\<rparr>] else []
      | _ \<Rightarrow> []) @ accepted fs"

fun client_run :: "browser_event list \<Rightarrow> WebSocketClient \<Rightarrow> WebSocketClient" where
  "client_run [] c = c"
| "client_run (e # es) c = client_run es (client_event e c)"

fun hook_run :: "browser_event list \<Rightarrow> hook \<Rightarrow> hook" where
  "hook_run [] h = h"
| "hook_run (e # es) h = hook_run es (hook_event e h)"

fun onmessages :: "WebSocketMessage option list \<Rightarrow> hook \<Rightarrow> hook" where
  "onmessages [] h = h"
| "onmessages (f # fs) h = onmessages fs (onmessage f h)"

text \<open>
  Whether an entry is one whose send throws during a broadcast, whether the message list
  of the hook is ordered newest first by the timestamps of its entries (the strings of
  \<^verbatim>\<open>toISOString\<close> have one width, so their lexicographic order is the order in time),
  and whether a frame makes the hook replace its list.
\<close>

definition send_fails :: "clientId \<Rightarrow> clientId \<times> connection \<Rightarrow> bool" where
  "send_fails excludeClientId p = (eligible excludeClientId p \<and> sendThrows (ws (snd p)))"

definition newest_first :: "MessageData list \<Rightarrow> bool" where
  "newest_first ms = sorted (rev (map md_timestamp ms))"

definition replaces_list :: "WebSocketMessage option \<Rightarrow> bool" where
  "replaces_list f =
     (case f of
        None \<Rightarrow> False
      | Some m \<Rightarrow> wm_type m = ''connected'' \<and> wm_recentMessages m \<noteq> None)"

section \<open>Concrete states and frames\<close>

text \<open>Sockets, registries and frames on which the statements below are evaluated.\<close>

definition sock_open :: websocket where
  "sock_open = \<lparr>readyState = 1, sendThrows = False\<rparr>"

definition sock_closing :: websocket where
  "sock_closing = \<lparr>readyState = 2, sendThrows = False\<rparr>"

definition sock_broken :: websocket where
  "sock_broken = \<lparr>readyState = 1, sendThrows = True\<rparr>"

definition conn_of :: "websocket \<Rightarrow> connection" where
  "conn_of sock = \<lparr>ws = sock, connectedAt = ''2025-01-01T00:00:00.000Z'', userAgent = None\<rparr>"

definition reg2 :: hub where
  "reg2 = \<lparr>connections = [(''a'', conn_of sock_open), (''c'', conn_of sock_open)],
           messages = [], wire = []\<rparr>"

definition reg_closing :: hub where
  "reg_closing =
     \<lparr>connections = [(''a'', conn_of sock_open), (''b'', conn_of sock_closing),
                     (''c'', conn_of sock_open)],
      messages = [], wire = []\<rparr>"

definition reg_broken :: hub where
  "reg_broken =
     \<lparr>connections = [(''a'', conn_of sock_open), (''b'', conn_of sock_broken),
                     (''c'', conn_of sock_open)],
      messages = [], wire = []\<rparr>"

definition reg_mixed :: hub where
  "reg_mixed =
     \<lparr>connections = [(''a'', conn_of sock_open), (''b'', conn_of sock_broken),
                     (''c'', conn_of sock_closing), (''d'', conn_of sock_open)],
      messages = [], wire = []\<rparr>"

definition msg_of :: "json \<Rightarrow> json" where
  "msg_of c = JObj [(''type'', JStr ''message''), (''content'', c)]"

definition chat :: "string \<Rightarrow> frame" where
  "chat text = Parsed (msg_of (JStr text))"

definition spoofed :: json where
  "spoofed = JObj [(''type'', JStr ''message''), (''content'', JStr ''hi''),
                   (''clientId'', JStr ''mallory''),
                   (''timestamp'', JStr ''1999-01-01T00:00:00.000Z'')]"

text \<open>A run of chat frames from one client, the \<open>i\<close>-th stamped with \<open>i\<close> strokes.\<close>

definition tick :: "nat \<Rightarrow> string" where
  "tick i = replicate i (CHR ''I'')"

definition chat_at :: "nat \<Rightarrow> event" where
  "chat_at i = Frame ''a'' sock_open (tick i) (chat ''hi'')"

definition stamped :: "nat \<Rightarrow> messageData" where
  "stamped i = \<lparr>msg_type = Some (JStr ''message''), content = Some (JStr ''hi''),
                 clientId = ''a'', timestamp = tick i\<rparr>"

definition msg_one :: MessageData where
  "msg_one = \<lparr>md_content = ''one'', md_clientId = ''a'',
              md_timestamp = ''2025-01-01T00:00:01.000Z''\<rparr>"

definition msg_two :: MessageData where
  "msg_two = \<lparr>md_content = ''two'', md_clientId = ''a'',
              md_timestamp = ''2025-01-01T00:00:02.000Z''\<rparr>"

definition connected_frame :: "MessageData list \<Rightarrow> WebSocketMessage option" where
  "connected_frame ms =
     Some \<lparr>wm_type = ''connected'', wm_clientId = Some ''b'', wm_content = None,
           wm_count = None, wm_userCount = Some 2, wm_recentMessages = Some ms,
           wm_timestamp = None\<rparr>"

definition relayed :: "MessageData \<Rightarrow> WebSocketMessage option" where
  "relayed m =
     Some \<lparr>wm_type = ''message'', wm_clientId = Some (md_clientId m),
           wm_content = Some (md_content m), wm_count = None, wm_userCount = None,
           wm_recentMessages = None, wm_timestamp = Some (md_timestamp m)\<rparr>"

section \<open>Properties of the hub\<close>

subsection \<open>What a broadcast does\<close>

lemma broadcast_loop_messages:
  "messages (broadcast_loop d ex xs s) = messages s"
  by (induction xs arbitrary: s) (auto simp: ws_send_def)

lemma broadcast_loop_wire:
  "wire (broadcast_loop d ex xs s) = wire s @ map (send_call d) (filter (eligible ex) xs)"
  by (induction xs arbitrary: s)
     (auto simp: ws_send_def eligible_def send_call_def outcome_def)

lemma broadcast_loop_connections:
  "connections (broadcast_loop d ex xs s) =
     filter (\<lambda>p. fst p \<notin> fst ` set (filter (send_fails ex) xs)) (connections s)"
proof (induction xs arbitrary: s)
  case Nil
  then show ?case by simp
next
  case (Cons x xs)
  obtain cid c where x: "x = (cid, c)" by (cases x)
  show ?case
    unfolding x
    by (auto simp: Cons.IH ws_send_def send_fails_def eligible_def AList.delete_eq
             intro!: filter_cong)
qed

lemma send_fails_key:
  assumes "distinct (map fst al)" "p \<in> set al"
  shows "fst p \<in> fst ` set (filter (send_fails ex) al) \<longleftrightarrow> send_fails ex p"
proof
  assume "fst p \<in> fst ` set (filter (send_fails ex) al)"
  then obtain q where q: "q \<in> set al" "send_fails ex q" "fst q = fst p" by auto
  from assms q(1,3) have "q = p"
    by (metis eq_key_imp_eq_value prod.collapse)
  with q show "send_fails ex p" by simp
next
  assume "send_fails ex p"
  with assms(2) show "fst p \<in> fst ` set (filter (send_fails ex) al)" by auto
qed

lemma broadcast_connections:
  assumes "distinct (map fst (connections s))"
  shows "connections (broadcast d ex s) = filter (\<lambda>p. \<not> send_fails ex p) (connections s)"
proof -
  have "\<And>p. p \<in> set (connections s) \<Longrightarrow>
          (fst p \<notin> fst ` set (filter (send_fails ex) (connections s))) = (\<not> send_fails ex p)"
    using send_fails_key[OF assms] by blast
  then show ?thesis
    unfolding broadcast_def broadcast_loop_connections by (rule filter_cong[OF refl])
qed

lemma broadcast_wire:
  "wire (broadcast d ex s) = wire s @ map (send_call d) (filter (eligible ex) (connections s))"
  by (simp add: broadcast_def broadcast_loop_wire)

lemma broadcast_messages: "messages (broadcast d ex s) = messages s"
  by (simp add: broadcast_def broadcast_loop_messages)

lemma new_calls_broadcast:
  "new_calls s (broadcast d ex s) = map (send_call d) (filter (eligible ex) (connections s))"
  by (simp add: new_calls_def broadcast_wire)

lemma broadcast_distinct:
  "distinct (map fst (connections s)) \<Longrightarrow> distinct (map fst (connections (broadcast d ex s)))"
  by (simp add: broadcast_def broadcast_loop_connections distinct_map_filter)

text \<open>
  Claim C2, as stated: \<^verbatim>\<open>broadcast\<close> sends the envelope to every identity of the registry
  other than the excluded one. The loop sends only where \<^verbatim>\<open>readyState === 1\<close>: with
  \<open>b\<close> registered on a socket that is closing and \<open>a\<close> excluded, no send goes to \<open>b\<close>.
\<close>

theorem broadcast_skips_closing_counterexample:
  "''b'' \<in> fst ` set (connections reg_closing) \<and> ''b'' \<noteq> ''a'' \<and>
   ''b'' \<notin> fst ` set (new_calls reg_closing (broadcast Pong ''a'' reg_closing))"
  by (simp add: reg_closing_def new_calls_broadcast eligible_def conn_of_def sock_open_def
        sock_closing_def send_call_def)

text \<open>
  Claim C2, amended: \<^verbatim>\<open>broadcast(envelope, excludeIdentity)\<close> calls \<^verbatim>\<open>send\<close> with the
  envelope once for each entry that was in the registry when the call began, is not the
  excluded identity and has an open socket (\<^verbatim>\<open>readyState\<close> 1), in the order of the
  registry, and for no other; it never sends to the excluded identity.
\<close>

theorem broadcast_recipients:
  "new_calls s (broadcast data ex s) =
     map (send_call data) (filter (eligible ex) (connections s)) \<and>
   ex \<notin> fst ` set (new_calls s (broadcast data ex s))"
  by (auto simp: new_calls_broadcast send_call_def eligible_def)

text \<open>
  Claim C6, as stated: when a send fails during a broadcast, delivery continues to every
  remaining entry. The loop sends only where \<^verbatim>\<open>readyState === 1\<close>: with \<open>b\<close> throwing and
  \<open>c\<close> on a socket that is closing, \<open>b\<close> is removed and \<open>a\<close> and \<open>d\<close> get the
  envelope, but \<open>c\<close>, which remains in the registry, gets nothing.
\<close>

theorem broadcast_leaves_out_closing_counterexample:
  "connections (broadcast Pong [] reg_mixed) =
     [(''a'', conn_of sock_open), (''c'', conn_of sock_closing), (''d'', conn_of sock_open)] \<and>
   new_calls reg_mixed (broadcast Pong [] reg_mixed) =
     [(''a'', Pong, Sent), (''b'', Pong, Threw), (''d'', Pong, Sent)]"
  by (simp add: reg_mixed_def broadcast_def new_calls_def ws_send_def conn_of_def
        sock_open_def sock_broken_def sock_closing_def)

text \<open>
  Claim C6, amended: during a broadcast a send that throws is caught where it happens.
  The registry after the broadcast is the registry before it without the entries whose
  send threw; the envelope was delivered to every other entry that is not excluded and
  whose socket is open (\<^verbatim>\<open>readyState\<close> 1), whatever happened at the entries before it;
  the history is untouched. \<^verbatim>\<open>broadcast\<close> has no outcome but the new state: nothing is
  thrown to its caller. The keys of the registry are distinct, as the keys of a \<^verbatim>\<open>Map\<close>
  are.
\<close>

theorem broadcast_failure_is_local:
  assumes "distinct (map fst (connections s))"
  shows "connections (broadcast data ex s) =
           filter (\<lambda>p. \<not> send_fails ex p) (connections s) \<and>
         filter (\<lambda>c. snd (snd c) = Sent) (new_calls s (broadcast data ex s)) =
           map (\<lambda>p. (fst p, data, Sent))
             (filter (\<lambda>p. eligible ex p \<and> \<not> send_fails ex p) (connections s)) \<and>
         messages (broadcast data ex s) = messages s"
proof -
  have "filter (\<lambda>c. snd (snd c) = Sent) (map (send_call data) xs) =
        map (\<lambda>p. (fst p, data, Sent)) (filter (\<lambda>p. \<not> sendThrows (ws (snd p))) xs)" for xs
    by (induction xs) (auto simp: send_call_def outcome_def)
  then show ?thesis
    using broadcast_connections[OF assms, of data ex]
    by (simp add: new_calls_broadcast send_fails_def broadcast_messages conj_commute
          cong: conj_cong)
qed

theorem broadcast_failure_is_local_witness:
  "distinct (map fst (connections reg_broken)) \<and>
   connections (broadcast Pong [] reg_broken) =
     [(''a'', conn_of sock_open), (''c'', conn_of sock_open)] \<and>
   filter (\<lambda>c. snd (snd c) = Sent) (new_calls reg_broken (broadcast Pong [] reg_broken)) =
     [(''a'', Pong, Sent), (''c'', Pong, Sent)]"
proof -
  have d: "distinct (map fst (connections reg_broken))"
    by (simp add: reg_broken_def)
  from broadcast_failure_is_local[OF d, of Pong "[]"] d show ?thesis
    by (simp add: reg_broken_def send_fails_def eligible_def conn_of_def sock_open_def
          sock_broken_def)
qed

subsection \<open>The presence count\<close>





subsection \<open>The history buffer\<close>

lemma slice_last_append_slice:
  "slice_last k (slice_last k ys @ xs) = slice_last k (ys @ xs)"
proof (cases "k \<le> length ys")
  case True
  then have "length ys + length xs - (length ys - k + k) + (length ys - k) =
             length ys + length xs - k" by arith
  with True show ?thesis by (simp add: slice_last_def)
next
  case False
  then show ?thesis by (simp add: slice_last_def)
qed

lemma push_message_slice:
  assumes "length ms \<le> MAX_MESSAGES"
  shows "push_message ms m = slice_last MAX_MESSAGES (ms @ [m])"
proof (cases "length ms = MAX_MESSAGES")
  case True
  then have "slice_last MAX_MESSAGES (ms @ [m]) = drop (Suc 0) (ms @ [m])"
    by (simp add: slice_last_def)
  also have "\<dots> = tl (ms @ [m])"
    by (simp only: drop_Suc drop_0)
  finally show ?thesis using True
    by (simp add: push_message_def Let_def)
next
  case False
  with assms show ?thesis
    by (simp add: push_message_def Let_def slice_last_def)
qed

text \<open>Appending at capacity evicts the head.\<close>

lemma push_message_at_capacity:
  "length ms = MAX_MESSAGES \<Longrightarrow> push_message ms m = tl ms @ [m]"
  by (cases ms) (simp_all add: push_message_def Let_def MAX_MESSAGES_def)

lemma length_slice_last: "length (slice_last k xs) \<le> k"
  by (simp add: slice_last_def)

lemma foldl_push_message:
  "length ms \<le> MAX_MESSAGES \<Longrightarrow>
     foldl push_message ms xs = slice_last MAX_MESSAGES (ms @ xs)"
proof (induction xs arbitrary: ms)
  case Nil
  then show ?case by (simp add: slice_last_def)
next
  case (Cons x xs)
  have "length (push_message ms x) \<le> MAX_MESSAGES"
    by (simp add: push_message_slice[OF Cons.prems] length_slice_last)
  then have "foldl push_message (push_message ms x) xs =
               slice_last MAX_MESSAGES (push_message ms x @ xs)"
    by (rule Cons.IH)
  also have "\<dots> = slice_last MAX_MESSAGES ((ms @ [x]) @ xs)"
    by (simp only: push_message_slice[OF Cons.prems] slice_last_append_slice)
  finally show ?case by simp
qed

lemma on_message_messages:
  "on_message cid sock now data s = Inr s' \<Longrightarrow>
     messages s' = foldl push_message (messages s) (appended [Frame cid sock now data])"
  by (cases data; cases "case data of Parsed j \<Rightarrow> j")
     (auto simp: on_message_def on_message_try_def broadcast_messages ws_send_def Let_def
           split: sum.splits if_splits)

lemma step_messages:
  "step ev s = Inr s' \<Longrightarrow> messages s' = foldl push_message (messages s) (appended [ev])"
proof (cases ev)
  case (Frame cid sock now data)
  then show "step ev s = Inr s' \<Longrightarrow> ?thesis"
    using on_message_messages[of cid sock now data s s'] by simp
qed (auto simp: on_connection_def on_close_def on_error_def Let_def broadcast_messages
       ws_send_def split: sum.splits if_splits)

lemma appended_Cons: "appended (ev # evs) = appended [ev] @ appended evs"
  by (induction "ev # evs" rule: appended.induct) auto

lemma run_messages:
  "run evs s = Inr s' \<Longrightarrow> messages s' = foldl push_message (messages s) (appended evs)"
proof (induction evs arbitrary: s)
  case Nil
  then show ?case by simp
next
  case (Cons ev evs)
  then obtain s1 where s1: "step ev s = Inr s1" "run evs s1 = Inr s'"
    by (auto split: sum.splits)
  have "messages s' = foldl push_message (messages s1) (appended evs)"
    by (rule Cons.IH[OF s1(2)])
  also have "messages s1 = foldl push_message (messages s) (appended [ev])"
    by (rule step_messages[OF s1(1)])
  finally show ?case
    by (subst appended_Cons) simp
qed

text \<open>The keys of the registry stay distinct along every run.\<close>

lemma step_distinct:
  assumes "step ev s = Inr s'" "distinct (map fst (connections s))"
  shows "distinct (map fst (connections s'))"
proof (cases ev)
  case (Connection cid sock now agent)
  with assms show ?thesis
    by (auto simp: on_connection_def Let_def ws_send_def distinct_update
          intro!: broadcast_distinct split: if_splits)
next
  case (Frame cid sock now data)
  with assms show ?thesis
    by (auto simp: on_message_def on_message_try_def Let_def ws_send_def
          intro!: broadcast_distinct split: sum.splits frame.splits if_splits)
next
  case (Close cid)
  with assms show ?thesis
    by (auto simp: on_close_def Let_def distinct_delete intro!: broadcast_distinct)
next
  case (Error cid)
  with assms show ?thesis
    by (auto simp: on_error_def Let_def distinct_delete intro!: broadcast_distinct)
qed

lemma run_distinct:
  "run evs s = Inr s' \<Longrightarrow> distinct (map fst (connections s)) \<Longrightarrow>
     distinct (map fst (connections s'))"
proof (induction evs arbitrary: s)
  case Nil
  then show ?case by simp
next
  case (Cons ev evs)
  then obtain s1 where s1: "step ev s = Inr s1" "run evs s1 = Inr s'"
    by (auto split: sum.splits)
  from step_distinct[OF s1(1) Cons.prems(2)] show ?case
    by (rule Cons.IH[OF s1(2)])
qed

text \<open>
  Claim C1: in every state the hub reaches from its start, whatever connections, frames,
  closes and errors it handled, the history holds at most 100 records, and they are the
  last \<open>min n 100\<close> of the \<open>n\<close> records the message handler appended, in the order
  in which it appended them.
\<close>

theorem history_bounded_fifo:
  assumes "run evs hub0 = Inr s"
  shows "length (messages s) \<le> 100 \<and>
         messages s = slice_last (min (length (appended evs)) 100) (appended evs)"
proof -
  have "messages s = foldl push_message (messages hub0) (appended evs)"
    by (rule run_messages[OF assms])
  then have m: "messages s = slice_last MAX_MESSAGES (appended evs)"
    by (simp add: hub0_def foldl_push_message)
  have "slice_last 100 (appended evs) =
        slice_last (min (length (appended evs)) 100) (appended evs)"
    by (simp add: slice_last_def min_def)
  with m show ?thesis
    using length_slice_last[of MAX_MESSAGES "appended evs"]
    by (simp add: MAX_MESSAGES_def)
qed

lemma run_chat_at:
  "connections s = [] \<Longrightarrow>
     run (map chat_at xs) s =
       Inr (s\<lparr>messages := foldl push_message (messages s) (map stamped xs)\<rparr>)"
  by (induction xs arbitrary: s)
     (simp_all add: chat_at_def stamped_def chat_def msg_of_def on_message_def
        on_message_try_def broadcast_def Let_def)

lemma appended_chat_at: "appended (map chat_at xs) = map stamped xs"
  by (induction xs) (simp_all add: chat_at_def stamped_def chat_def msg_of_def)

text \<open>After 101 chat frames the first record is gone and the other 100 are left.\<close>

theorem history_bounded_fifo_witness:
  "run (map chat_at [0..<101]) hub0 =
     Inr \<lparr>connections = [], messages = map stamped [1..<101], wire = []\<rparr> \<and>
   length (map stamped [1..<101]) \<le> 100 \<and>
   map stamped [1..<101] =
     slice_last (min (length (appended (map chat_at [0..<101]))) 100)
       (appended (map chat_at [0..<101]))"
proof -
  have "foldl push_message [] (map stamped [0..<101]) = map stamped [1..<101]"
    by (simp add: foldl_push_message slice_last_def MAX_MESSAGES_def drop_map)
  then have r: "run (map chat_at [0..<101]) hub0 =
      Inr \<lparr>connections = [], messages = map stamped [1..<101], wire = []\<rparr>"
    by (simp add: run_chat_at hub0_def)
  from r history_bounded_fifo[OF r, unfolded hub.select_convs] show ?thesis by blast
qed

subsection \<open>Frames the hub does not relay\<close>

text \<open>
  The handler of the standalone server and of the API route returns for every frame,
  leaves the state as it was for a frame that does not parse, for \<^verbatim>\<open>null\<close> and for a
  frame whose tag is neither \<^verbatim>\<open>message\<close> nor \<^verbatim>\<open>ping\<close>, and never removes the entry of
  the connection the frame came from.
\<close>

lemma on_message_returns: "\<exists>s'. on_message cid sock now data s = Inr s'"
  by (simp add: on_message_def split: sum.splits)

lemma on_message_discards:
  "on_message cid sock now Unparsable s = Inr s"
  "on_message cid sock now (Parsed JNull) s = Inr s"
  "get_prop v ''type'' = Inr ty \<Longrightarrow> ty \<noteq> Some (JStr ''message'') \<Longrightarrow>
     ty \<noteq> Some (JStr ''ping'') \<Longrightarrow> on_message cid sock now (Parsed v) s = Inr s"
  by (auto simp: on_message_def on_message_try_def split: sum.splits)

lemma broadcast_loop_keeps:
  "filter (\<lambda>p. fst p = ex) (connections (broadcast_loop d ex xs s)) =
   filter (\<lambda>p. fst p = ex) (connections s)"
  unfolding broadcast_loop_connections
  by (auto simp: send_fails_def eligible_def intro!: filter_cong)

lemma on_message_keeps_sender:
  assumes "on_message cid sock now data s = Inr s'"
  shows "filter (\<lambda>p. fst p = cid) (connections s') = filter (\<lambda>p. fst p = cid) (connections s)"
  using assms
  by (auto simp: on_message_def on_message_try_def broadcast_def broadcast_loop_keeps
        ws_send_def Let_def split: sum.splits frame.splits if_splits)

text \<open>
  Claim C7: a frame that cannot be parsed is discarded and handling never throws out of
  the message handler. The legacy server calls \<^verbatim>\<open>JSON.parse\<close> and destructures the result
  outside any \<^verbatim>\<open>try\<close>: on a frame that is not JSON its handler ends with the SyntaxError,
  and on the frame \<^verbatim>\<open>null\<close> with a TypeError, whatever the connection and the state.
\<close>

theorem legacy_handler_throws:
  "on_message_legacy cid sock now Unparsable s = Inl SyntaxError \<and>
   on_message_legacy cid sock now (Parsed JNull) s = Inl TypeError"
  by (simp add: on_message_legacy_def)

text \<open>
  Claim C8, as stated: a message envelope whose content is only whitespace is dropped.
  The handler tests the content for truthiness and does not trim it: three spaces sent
  by \<open>a\<close> are appended to the history and sent to \<open>c\<close>.
\<close>

theorem whitespace_content_is_relayed_counterexample:
  "on_message ''a'' sock_open ''2025-01-01T00:00:01.000Z'' (chat ''   '') reg2 =
     Inr \<lparr>connections = connections reg2,
          messages = [\<lparr>msg_type = Some (JStr ''message''), content = Some (JStr ''   ''),
                        clientId = ''a'', timestamp = ''2025-01-01T00:00:01.000Z''\<rparr>],
          wire = [(''c'', Message \<lparr>msg_type = Some (JStr ''message''),
                                  content = Some (JStr ''   ''), clientId = ''a'',
                                  timestamp = ''2025-01-01T00:00:01.000Z''\<rparr>, Sent)]\<rparr>"
  by (simp add: on_message_def on_message_try_def chat_def msg_of_def reg2_def broadcast_def
        conn_of_def sock_open_def ws_send_def push_message_def MAX_MESSAGES_def Let_def)

text \<open>
  Claim C8, amended: for a frame tagged \<^verbatim>\<open>message\<close>, when the content is falsy (absent,
  \<^verbatim>\<open>null\<close>, \<^verbatim>\<open>false\<close>, 0 or the empty string) the hub does nothing: no record is appended
  and nothing is sent. When the content is anything else, a string of whitespace
  included, the hub appends the record it builds, with its own identity for the sender
  and its own timestamp, and broadcasts that record to the other open connections.
\<close>

theorem falsy_content_dropped:
  assumes "get_prop v ''type'' = Inr (Some (JStr ''message''))"
      and "get_prop v ''content'' = Inr c"
  shows "(\<not> truthy c \<longrightarrow> on_message cid sock now (Parsed v) s = Inr s) \<and>
         (truthy c \<longrightarrow>
            (\<exists>s'. on_message cid sock now (Parsed v) s = Inr s' \<and>
               messages s' =
                 push_message (messages s)
                   \<lparr>msg_type = Some (JStr ''message''), content = c, clientId = cid,
                    timestamp = now\<rparr> \<and>
               new_calls s s' =
                 map (send_call (Message \<lparr>msg_type = Some (JStr ''message''), content = c,
                                         clientId = cid, timestamp = now\<rparr>))
                   (filter (eligible cid) (connections s))))"
  using assms
  by (simp add: on_message_def on_message_try_def Let_def broadcast_messages
        new_calls_def broadcast_wire)

theorem falsy_content_dropped_witness:
  "get_prop (msg_of (JStr [])) ''type'' = Inr (Some (JStr ''message'')) \<and>
   get_prop (msg_of (JStr [])) ''content'' = Inr (Some (JStr [])) \<and>
   on_message ''a'' sock_open ''t1'' (Parsed (msg_of (JStr []))) reg2 = Inr reg2 \<and>
   get_prop (msg_of (JStr ''  '')) ''type'' = Inr (Some (JStr ''message'')) \<and>
   get_prop (msg_of (JStr ''  '')) ''content'' = Inr (Some (JStr ''  '')) \<and>
   (\<exists>s'. on_message ''a'' sock_open ''t1'' (Parsed (msg_of (JStr ''  ''))) reg2 = Inr s' \<and>
      messages s' = [\<lparr>msg_type = Some (JStr ''message''), content = Some (JStr ''  ''),
                       clientId = ''a'', timestamp = ''t1''\<rparr>] \<and>
      new_calls reg2 s' = [(''c'', Message \<lparr>msg_type = Some (JStr ''message''),
                               content = Some (JStr ''  ''), clientId = ''a'',
                               timestamp = ''t1''\<rparr>, Sent)])"
proof -
  have a: "get_prop (msg_of x) ''type'' = Inr (Some (JStr ''message''))"
          "get_prop (msg_of x) ''content'' = Inr (Some x)" for x
    by (simp_all add: msg_of_def)
  have e: "push_message (messages reg2) m = [m]"
          "map (send_call (Message m)) (filter (eligible ''a'') (connections reg2)) =
             [(''c'', Message m, Sent)]" for m
    by (simp_all add: reg2_def push_message_def MAX_MESSAGES_def send_call_def outcome_def
          eligible_def conn_of_def sock_open_def)
  from falsy_content_dropped[OF a, of "JStr []" "''a''" sock_open "''t1''" reg2]
       falsy_content_dropped[OF a, of "JStr ''  ''" "''a''" sock_open "''t1''" reg2]
  show ?thesis
    unfolding e by (simp add: a)
qed

subsection \<open>Who stamps a relayed message\<close>

text \<open>
  In the standalone server and the API route every envelope a message handler sends is
  a pong or the record the hub built, which carries the identity of the connection and
  the hub's timestamp.
\<close>

lemma on_message_stamps:
  assumes "on_message cid sock now data s = Inr s'"
  shows "list_all (\<lambda>c. case fst (snd c) of
                          Message m \<Rightarrow> clientId m = cid \<and> timestamp m = now
                        | Pong \<Rightarrow> True | _ \<Rightarrow> False) (new_calls s s')"
  using assms
  by (auto simp: on_message_def on_message_try_def new_calls_def broadcast_wire
        ws_send_def Let_def send_call_def list_all_iff
        split: sum.splits frame.splits if_splits)

text \<open>
  Claim C9: the envelope broadcast for an accepted chat message carries the identity and
  the timestamp the hub assigned, whatever the client supplied. The legacy server builds
  that record for its history but hands the parsed frame itself to \<^verbatim>\<open>broadcast\<close>: a frame
  from \<open>a\<close> that names \<open>mallory\<close> as its sender and 1999 as its time reaches \<open>c\<close> as
  it came, while the history holds \<open>a\<close> and the hub's time.
\<close>

theorem legacy_broadcasts_client_frame:
  "on_message_legacy ''a'' sock_open ''2025-01-01T00:00:01.000Z'' (Parsed spoofed) reg2 =
     Inr \<lparr>connections = connections reg2,
          messages = [\<lparr>msg_type = Some (JStr ''message''), content = Some (JStr ''hi''),
                        clientId = ''a'', timestamp = ''2025-01-01T00:00:01.000Z''\<rparr>],
          wire = [(''c'', Raw spoofed, Sent)]\<rparr> \<and>
   get_prop spoofed ''clientId'' = Inr (Some (JStr ''mallory'')) \<and>
   get_prop spoofed ''timestamp'' = Inr (Some (JStr ''1999-01-01T00:00:00.000Z''))"
  by (simp add: on_message_legacy_def spoofed_def reg2_def broadcast_def
        conn_of_def sock_open_def ws_send_def push_message_def MAX_MESSAGES_def Let_def)

section \<open>Properties of the clients\<close>

lemmas client_defs = client0_def connect_def scheduleReconnect_def disconnect_def
  socket_open_def socket_close_def clearTimeout_def maxReconnectAttempts_def
  reconnectInterval_def Let_def

lemmas hook_defs = hook0_def mounted_hook_def hook_event_def h_connect_def
  h_scheduleReconnect_def h_cleanup_def socket_open_def socket_close_def clearTimeout_def
  maxReconnectAttempts_def reconnectInterval_def Let_def power_int_def

subsection \<open>Backoff\<close>

text \<open>
  The class counts an attempt when its timeout fires and waits
  \<open>3000 * 2 ^ reconnectAttempts\<close>: from a fresh client whose attempts all fail the
  delays are 3000, 6000, 12000, 24000 and 48000, and the sixth failure sets no timeout.
\<close>

lemma scheduleReconnect_delay:
  "reconnectAttempts c < 5 \<Longrightarrow>
     timeouts (scheduleReconnect c) = timeouts c @ [3000 * 2 ^ reconnectAttempts c]"
  "5 \<le> reconnectAttempts c \<Longrightarrow> scheduleReconnect c = c"
  by (simp_all add: scheduleReconnect_def maxReconnectAttempts_def reconnectInterval_def
        Let_def split: option.splits)

lemma client_backoff_sequence:
  "timeouts (client_run [Closes 0, Fires 1, Closes 1, Fires 2, Closes 2, Fires 3, Closes 3,
                         Fires 4, Closes 4, Fires 5, Closes 5] (connect client0))
     = [3000, 6000, 12000, 24000, 48000] \<and>
   timers (client_run [Closes 0, Fires 1, Closes 1, Fires 2, Closes 2, Fires 3, Closes 3,
                       Fires 4, Closes 4, Fires 5, Closes 5] (connect client0)) = []"
  by (simp add: client_defs)

text \<open>
  The mounted hook: the effect called \<^verbatim>\<open>connect\<close>, which set \<^verbatim>\<open>connecting\<close>; the render
  that followed ran the cleanup, which closed the socket just created, and the new
  \<^verbatim>\<open>connect\<close> returned at once. The socket is closing: it cannot open any more, and no
  timeout is pending.
\<close>

lemma mounted_hook_state:
  "mounted_hook =
     \<lparr>sockets = [2], timers = [], next_timer = 1, timeouts = [], url_ok = True,
      connected = False, connecting = True, userCount = 0, h_messages = [],
      wsRef = Some 0, reconnectTimerRef = None, reconnectAttemptsRef = 1,
      rendered_connecting = True\<rparr>"
  by (simp add: hook_defs)

lemma mounted_hook_no_open_no_timeout:
  "hook_event (Opens 0) mounted_hook = mounted_hook"
  "hook_event (Fires t) mounted_hook = mounted_hook"
  by (simp_all add: mounted_hook_state hook_event_def)

text \<open>
  Claim C4: the delays of consecutive failed attempts are 3000, 6000, 12000, 24000,
  48000, and the sixth failure schedules nothing. The hook counts an attempt in
  \<^verbatim>\<open>connect\<close>, the first one included, and hands \<open>3000 * 2 ^ (attempts - 1)\<close> to
  \<^verbatim>\<open>setTimeout\<close>. On the mounted hook, when the socket closes, \<^verbatim>\<open>onclose\<close> sets a timeout
  of 3000 and \<^verbatim>\<open>connecting\<close> to false; the render that follows cancels that timeout in
  the cleanup and connects at once, and the render after that closes the new socket.
  Over the closes of four sockets the delays handed out are 3000, 6000, 12000 and
  24000, none of them waited. At the fifth and the sixth close the counter is 5 and 6:
  no timeout is set, 48000 never occurs, and the hook still opens a socket each time.
\<close>

theorem hook_backoff_sequence:
  "hook_run [Closes 0] mounted_hook =
     \<lparr>sockets = [3, 2], timers = [], next_timer = 2, timeouts = [3000], url_ok = True,
      connected = False, connecting = True, userCount = 0, h_messages = [],
      wsRef = Some 1, reconnectTimerRef = Some 1, reconnectAttemptsRef = 2,
      rendered_connecting = True\<rparr> \<and>
   timeouts (hook_run [Closes 0, Closes 1, Closes 2, Closes 3] mounted_hook) =
     [3000, 6000, 12000, 24000] \<and>
   hook_run [Closes 0, Closes 1, Closes 2, Closes 3, Closes 4, Closes 5] mounted_hook =
     \<lparr>sockets = [3, 3, 3, 3, 3, 3, 2], timers = [], next_timer = 5,
      timeouts = [3000, 6000, 12000, 24000], url_ok = True,
      connected = False, connecting = True, userCount = 0, h_messages = [],
      wsRef = Some 6, reconnectTimerRef = Some 4, reconnectAttemptsRef = 7,
      rendered_connecting = True\<rparr>"
  by (simp add: hook_defs)

subsection \<open>Disconnecting\<close>

text \<open>
  Claim C5: after \<^verbatim>\<open>disconnect()\<close> no reconnection is scheduled any more. On a connected
  client \<^verbatim>\<open>disconnect()\<close> leaves no timeout pending, starts closing the socket and drops
  the reference to it. The handlers stay on the socket: when it then reports that it
  closed, \<^verbatim>\<open>onclose\<close> calls \<^verbatim>\<open>scheduleReconnect\<close>, which sets a timeout of 3000, and when
  that fires the client opens a new socket.
\<close>

theorem disconnect_then_close_reconnects:
  "disconnect (client_run [Opens 0] (connect client0)) =
     \<lparr>sockets = [2], timers = [], next_timer = 1, timeouts = [], url_ok = True,
      this_ws = None, reconnectTimer = None, reconnectAttempts = 0\<rparr> \<and>
   client_run [Closes 0] (disconnect (client_run [Opens 0] (connect client0))) =
     \<lparr>sockets = [3], timers = [(1, 3000)], next_timer = 2, timeouts = [3000], url_ok = True,
      this_ws = None, reconnectTimer = Some 1, reconnectAttempts = 0\<rparr> \<and>
   client_run [Closes 0, Fires 1] (disconnect (client_run [Opens 0] (connect client0))) =
     \<lparr>sockets = [3, 0], timers = [], next_timer = 2, timeouts = [3000], url_ok = True,
      this_ws = Some 1, reconnectTimer = Some 1, reconnectAttempts = 1\<rparr>"
  by (simp add: client_defs)

subsection \<open>The message list of the hook\<close>

text \<open>
  Claim C10, as stated: the list always holds its entries newest first. The hub sends its
  recent history oldest first (\<^verbatim>\<open>messages.slice(-10)\<close> of an array it appends to), and the
  \<^verbatim>\<open>connected\<close> branch stores \<^verbatim>\<open>recentMessages\<close> as it arrives: after a welcome that
  carries two records the list begins with the older one.
\<close>

theorem welcome_history_oldest_first_counterexample:
  "h_messages (onmessage (connected_frame [msg_one, msg_two]) hook0) = [msg_one, msg_two] \<and>
   \<not> newest_first (h_messages (onmessage (connected_frame [msg_one, msg_two]) hook0))"
  by (simp add: onmessage_def connected_frame_def hook0_def newest_first_def msg_one_def
        msg_two_def)

text \<open>Handling a frame leaves \<^verbatim>\<open>connecting\<close> alone: no effect runs after it.\<close>

lemma onmessage_no_effect:
  "connecting (onmessage f h) = connecting h"
  "rendered_connecting (onmessage f h) = rendered_connecting h"
  by (simp_all add: onmessage_def Let_def split: option.splits)

text \<open>A \<^verbatim>\<open>connected\<close> envelope that carries \<^verbatim>\<open>recentMessages\<close> replaces the list by them.\<close>

lemma connected_replaces_list:
  "wm_type m = ''connected'' \<Longrightarrow> wm_recentMessages m = Some ms \<Longrightarrow>
     h_messages (onmessage (Some m) h) = ms"
  by (simp add: onmessage_def Let_def split: option.splits)

lemma onmessage_list:
  assumes "\<not> replaces_list f"
  shows "h_messages (onmessage f h) =
           (if accepted [f] = [] then h_messages h
            else take 100 (accepted [f] @ h_messages h))"
  using assms
  by (auto simp: onmessage_def replaces_list_def Let_def
           split: option.splits if_splits)

lemma accepted_Cons: "accepted (f # fs) = accepted [f] @ accepted fs"
  by (cases f) (auto split: option.splits)

lemma length_accepted1: "length (accepted [f]) \<le> 1"
  by (cases f) (auto split: option.splits)

lemma take_append_take: "take n (xs @ take n ys) = take n (xs @ ys)"
  by (simp add: take_append min_def)

text \<open>
  Claim C10, amended: the handler drops every message envelope in which content,
  clientId or timestamp is absent or empty, and puts every other message envelope in
  front of the list, which it cuts to its first 100 entries. So over frames none of which
  is a \<^verbatim>\<open>connected\<close> envelope with \<^verbatim>\<open>recentMessages\<close>, a list of at most 100 entries
  becomes the accepted messages, latest arrival first, in front of what it held, cut to
  100 entries. (A \<^verbatim>\<open>connected\<close> envelope with \<^verbatim>\<open>recentMessages\<close> replaces the list by
  them as they come.)
\<close>

theorem message_list_newest_first:
  assumes "list_all (\<lambda>f. \<not> replaces_list f) fs"
      and "length (h_messages h) \<le> 100"
  shows "h_messages (onmessages fs h) = take 100 (rev (accepted fs) @ h_messages h) \<and>
         length (h_messages (onmessages fs h)) \<le> 100"
  using assms
proof (induction fs arbitrary: h)
  case Nil
  then show ?case by simp
next
  case (Cons f fs)
  from Cons.prems have nf: "\<not> replaces_list f" and rest: "list_all (\<lambda>f. \<not> replaces_list f) fs"
    by simp_all
  have step: "h_messages (onmessage f h) = take 100 (accepted [f] @ h_messages h)"
    using onmessage_list[OF nf, of h] Cons.prems(2) by simp
  then have len: "length (h_messages (onmessage f h)) \<le> 100"
    by simp
  have "take 100 (rev (accepted fs) @ take 100 (accepted [f] @ h_messages h)) =
        take 100 (rev (accepted fs) @ accepted [f] @ h_messages h)"
    by (rule take_append_take)
  moreover have "rev (accepted [f]) = accepted [f]"
    using length_accepted1[of f] by (cases "accepted [f]") auto
  ultimately show ?case
    using Cons.IH[OF rest len] step
    by (simp add: accepted_Cons[of f fs])
qed

theorem message_list_newest_first_witness:
  "list_all (\<lambda>f. \<not> replaces_list f)
     [relayed msg_one, relayed (msg_one\<lparr>md_clientId := []\<rparr>), None, relayed msg_two] \<and>
   length (h_messages hook0) \<le> 100 \<and>
   h_messages (onmessages
     [relayed msg_one, relayed (msg_one\<lparr>md_clientId := []\<rparr>), None, relayed msg_two] hook0) =
       [msg_two, msg_one]"
proof -
  have a: "list_all (\<lambda>f. \<not> replaces_list f)
     [relayed msg_one, relayed (msg_one\<lparr>md_clientId := []\<rparr>), None, relayed msg_two]"
    by (simp add: replaces_list_def relayed_def)
  have b: "length (h_messages hook0) \<le> 100"
    by (simp add: hook0_def)
  from message_list_newest_first[OF a b] a b show ?thesis
    by (simp add: relayed_def hook0_def msg_one_def msg_two_def)
qed

end
